theory Spec2Isabelle
  imports Complex_Main "HOL-Library.Sublist"
begin

section \<open>JavaScript values\<close>

text \<open>
  The catalog code is JavaScript: the decoded front matter is whatever the YAML loader
  returns, and every field of a server object is an arbitrary value. Values are therefore
  modelled by one datatype. Finite numbers are rationals (every finite double is one);
  \<open>NaN\<close> and the two infinities are separate constructors. An object is the list of
  its own properties in iteration order.
\<close>

datatype jsval =
    JUndefined
  | JNull
  | JBool bool
  | JNum rat
  | JNaN
  | JInfinity bool
  | JStr string
  | JArr "jsval list"
  | JObj "(string \<times> jsval) list"

type_synonym props = "(string \<times> jsval) list"

datatype error = Error string

text \<open>ToBoolean: \<open>undefined\<close>, \<open>null\<close>, \<open>false\<close>, \<open>0\<close>, \<open>NaN\<close> and the empty string are falsy.\<close>

fun truthy :: "jsval \<Rightarrow> bool" where
  "truthy JUndefined = False"
| "truthy JNull = False"
| "truthy (JBool b) = b"
| "truthy (JNum n) = (n \<noteq> 0)"
| "truthy JNaN = False"
| "truthy (JInfinity s) = True"
| "truthy (JStr s) = (s \<noteq> [])"
| "truthy (JArr xs) = True"
| "truthy (JObj ps) = True"

text \<open>The operator \<open>a || b\<close>.\<close>

definition orElse :: "jsval \<Rightarrow> jsval \<Rightarrow> jsval" where
  "orElse a b = (if truthy a then a else b)"

text \<open>
  Property read \<open>v.k\<close>. Only the field names of the front matter are ever read, and none
  of them is a property of a string, an array or a prototype, so a read on anything but
  an object with that own property gives \<open>undefined\<close>.
\<close>

fun getProp :: "jsval \<Rightarrow> string \<Rightarrow> jsval" where
  "getProp (JObj ps) k = (case map_of ps k of Some v \<Rightarrow> v | None \<Rightarrow> JUndefined)"
| "getProp v k = JUndefined"

fun isArray :: "jsval \<Rightarrow> bool" where
  "isArray (JArr xs) = True"
| "isArray v = False"

subsection \<open>Property order of an object\<close>

text \<open>
  An object lists its integer-like keys first, in ascending numeric order, and then its
  other string keys in the order they were created. Assigning to an existing key keeps
  its place.
\<close>

definition isDigit :: "char \<Rightarrow> bool" where
  "isDigit c = (48 \<le> (of_char c :: nat) \<and> (of_char c :: nat) \<le> 57)"

definition indexValue :: "string \<Rightarrow> nat" where
  "indexValue k = foldl (\<lambda>n c. 10 * n + ((of_char c :: nat) - 48)) 0 k"

definition isArrayIndex :: "string \<Rightarrow> bool" where
  "isArrayIndex k =
     (k \<noteq> [] \<and> list_all isDigit k \<and> (k = ''0'' \<or> take 1 k \<noteq> ''0'') \<and> indexValue k < 4294967295)"

fun insertIndex :: "string \<Rightarrow> 'a \<Rightarrow> (string \<times> 'a) list \<Rightarrow> (string \<times> 'a) list" where
  "insertIndex k v [] = [(k, v)]"
| "insertIndex k v ((k', v') # ps) =
     (if isArrayIndex k' \<and> indexValue k' < indexValue k then (k', v') # insertIndex k v ps
      else (k, v) # (k', v') # ps)"

definition setProp :: "(string \<times> 'a) list \<Rightarrow> string \<Rightarrow> 'a \<Rightarrow> (string \<times> 'a) list" where
  "setProp ps k v =
     (if map_of ps k \<noteq> None then map (\<lambda>(k', v'). if k' = k then (k', v) else (k', v')) ps
      else if isArrayIndex k then insertIndex k v ps
      else ps @ [(k, v)])"

section \<open>Strings\<close>

text \<open>
  A \<open>char\<close> stands for one code unit of the text. The white space of \<open>trim\<close> and of the
  regular expression class \<open>\s\<close> is the same set; of it, the code units below 256 are
  listed.
\<close>

abbreviation newline :: char where "newline \<equiv> CHR 0x0A"
abbreviation dquote :: char where "dquote \<equiv> CHR 0x22"
abbreviation squote :: char where "squote \<equiv> CHR 0x27"

definition isWhiteSpace :: "char \<Rightarrow> bool" where
  "isWhiteSpace c =
     (c = CHR 0x09 \<or> c = CHR 0x0A \<or> c = CHR 0x0B \<or> c = CHR 0x0C \<or> c = CHR 0x0D \<or>
      c = CHR 0x20 \<or> c = CHR 0xA0)"

text \<open>The regular expression class \<open>\w\<close>: letters, digits and the underscore.\<close>

definition isWordChar :: "char \<Rightarrow> bool" where
  "isWordChar c =
     (let n = (of_char c :: nat)
      in (48 \<le> n \<and> n \<le> 57) \<or> (65 \<le> n \<and> n \<le> 90) \<or> n = 95 \<or> (97 \<le> n \<and> n \<le> 122))"

definition trim :: "string \<Rightarrow> string" where
  "trim s = rev (dropWhile isWhiteSpace (rev (dropWhile isWhiteSpace s)))"

definition startsWith :: "string \<Rightarrow> string \<Rightarrow> bool" where
  "startsWith s p = prefix p s"

fun includesStr :: "string \<Rightarrow> string \<Rightarrow> bool" where
  "includesStr [] p = (p = [])"
| "includesStr (c # cs) p = (prefix p (c # cs) \<or> includesStr cs p)"

text \<open>\<open>contents.split('\n')\<close>: the result is never empty; the empty text gives one empty line.\<close>

fun splitLines :: "string \<Rightarrow> string list" where
  "splitLines [] = [[]]"
| "splitLines (c # cs) =
     (if c = newline then [] # splitLines cs
      else (case splitLines cs of l # ls \<Rightarrow> (c # l) # ls | [] \<Rightarrow> [[c]]))"

text \<open>\<open>lines.join('\n')\<close>.\<close>

fun joinLines :: "string list \<Rightarrow> string" where
  "joinLines [] = []"
| "joinLines [l] = l"
| "joinLines (l # ls) = l @ newline # joinLines ls"

text \<open>
  \<open>s.replace(/p/g, r)\<close> for a literal pattern \<open>p\<close> and a replacement \<open>r\<close> without
  \<open>$\<close>: the matches are taken from left to right and do not overlap.
\<close>

fun replaceAll :: "string \<Rightarrow> string \<Rightarrow> string \<Rightarrow> string" where
  "replaceAll p r [] = []"
| "replaceAll p r (c # cs) =
     (if p \<noteq> [] \<and> prefix p (c # cs) then r @ replaceAll p r (drop (length p - 1) cs)
      else c # replaceAll p r cs)"

text \<open>
  \<open>s.match(re)\<close> without the global flag: the first position, from the left, at which
  the expression matches. The argument \<open>m\<close> matches the expression at the head of a text.
\<close>

fun firstMatch :: "(string \<Rightarrow> 'a option) \<Rightarrow> string \<Rightarrow> 'a option" where
  "firstMatch m [] = m []"
| "firstMatch m (c # cs) = (case m (c # cs) of Some r \<Rightarrow> Some r | None \<Rightarrow> firstMatch m cs)"

section \<open>The environment of a build\<close>

text \<open>
  What the two data files take from outside: the file system, the path functions of the
  platform, the YAML loader, the clock and the conversion of a value that is not a string
  to a property key. \<open>today env n\<close> is the result of the \<open>n\<close>-th evaluation of
  \<open>new Date().toISOString().split('T')[0]\<close> during the build; a function that may throw
  returns a sum, with \<open>Inl\<close> for the exception.
\<close>

record env =
  moduleDir :: string
  join :: "string \<Rightarrow> string \<Rightarrow> string"
  extname :: "string \<Rightarrow> string"
  basename :: "string \<Rightarrow> string \<Rightarrow> string"
  readdirSync :: "string \<Rightarrow> error + string list"
  readFileSync :: "string \<Rightarrow> error + string"
  parseYaml :: "string \<Rightarrow> error + jsval"
  today :: "nat \<Rightarrow> string"
  toPropertyKey :: "jsval \<Rightarrow> error + string"

section \<open>The file \<open>servers.js\<close>\<close>

subsection \<open>\<open>extractCodeWithoutFrontMatter\<close>\<close>

text \<open>
  The loop that looks for the closing sentinel: \<open>None\<close> stands for the initial
  \<open>frontMatterEndIndex = -1\<close>.
\<close>

fun findFrontMatterEnd :: "string list \<Rightarrow> nat \<Rightarrow> bool \<Rightarrow> nat option" where
  "findFrontMatterEnd [] i frontMatterStartFound = None"
| "findFrontMatterEnd (l # ls) i frontMatterStartFound =
     (if trim l = ''// ---'' then
        (if \<not> frontMatterStartFound then findFrontMatterEnd ls (Suc i) True else Some i)
      else findFrontMatterEnd ls (Suc i) frontMatterStartFound)"

text \<open>The five replacements at the end of the function, in the order of the source.\<close>

definition decodeEntities :: "string \<Rightarrow> string" where
  "decodeEntities code =
     replaceAll ''&amp;'' ''&''
       (replaceAll ''&gt;'' ''>''
         (replaceAll ''&lt;'' ''<''
           (replaceAll ''&#39;'' [squote]
             (replaceAll ''&quot;'' [dquote] code))))"

definition extractCodeWithoutFrontMatter :: "string \<Rightarrow> string" where
  "extractCodeWithoutFrontMatter contents =
     (let lines = splitLines contents;
          code = (case findFrontMatterEnd lines 0 False of
                    Some frontMatterEndIndex \<Rightarrow> trim (joinLines (drop (frontMatterEndIndex + 1) lines))
                  | None \<Rightarrow> trim contents)
      in decodeEntities code)"

subsection \<open>\<open>extractToolsFromCSharp\<close>\<close>

text \<open>
  \<open>/Description\("([^"]+)"\)/\<close> at the head of a text. The class \<open>[^"]+\<close> is greedy
  and must be followed by a quote, so only its longest run can lead to a match.
\<close>

definition descriptionAt :: "string \<Rightarrow> string option" where
  "descriptionAt s =
     (let opening = ''Description('' @ [dquote] in
      if prefix opening s then
        (let rest = drop (length opening) s;
             description = takeWhile (\<lambda>c. c \<noteq> dquote) rest;
             closing = dropWhile (\<lambda>c. c \<noteq> dquote) rest
         in if description \<noteq> [] \<and> prefix [dquote, CHR 0x29] closing then Some description
            else None)
      else None)"

text \<open>
  \<open>/public static\s+\w+\s+(\w+)\s*\(/\<close> at the head of a text. White space and word
  characters are disjoint and neither contains the parenthesis, so each greedy run can
  only match with its longest extent.
\<close>

definition methodAt :: "string \<Rightarrow> string option" where
  "methodAt s =
     (if prefix ''public static'' s then
        (let r0 = drop (length ''public static'') s;
             r1 = dropWhile isWhiteSpace r0;
             r2 = dropWhile isWordChar r1;
             r3 = dropWhile isWhiteSpace r2;
             methodName = takeWhile isWordChar r3;
             r4 = dropWhile isWordChar r3;
             r5 = dropWhile isWhiteSpace r4
         in if takeWhile isWhiteSpace r0 \<noteq> [] \<and> takeWhile isWordChar r1 \<noteq> [] \<and>
               takeWhile isWhiteSpace r2 \<noteq> [] \<and> methodName \<noteq> [] \<and> prefix ''('' r5
            then Some methodName else None)
      else None)"

definition toolObject :: "string \<Rightarrow> string \<Rightarrow> jsval" where
  "toolObject methodName description =
     JObj [(''name'', JStr methodName), (''description'', JStr description)]"

text \<open>The inner loop over \<open>j\<close>, up to \<open>bound = Math.min(i + 10, lines.length)\<close>.\<close>

function methodLoop :: "string list \<Rightarrow> nat \<Rightarrow> nat \<Rightarrow> string \<Rightarrow> jsval list \<Rightarrow> jsval list" where
  "methodLoop lines j bound description tools =
     (if j < bound then
        (let methodLine = trim (lines ! j) in
         if includesStr methodLine ''public static'' \<and> includesStr methodLine ''('' then
           (case firstMatch methodAt methodLine of
              Some methodName \<Rightarrow> tools @ [toolObject methodName description]
            | None \<Rightarrow> methodLoop lines (Suc j) bound description tools)
         else methodLoop lines (Suc j) bound description tools)
      else tools)"
  by pat_completeness auto
termination
  by (relation "measure (\<lambda>(lines, j, bound, description, tools). bound - j)") auto

declare methodLoop.simps [simp del]

text \<open>The body of the outer loop at index \<open>i\<close>, which is below \<open>lines.length\<close>.\<close>

definition toolStep :: "string list \<Rightarrow> nat \<Rightarrow> jsval list \<Rightarrow> jsval list" where
  "toolStep lines i tools =
     (let line = trim (lines ! i) in
      if includesStr line ''[McpServerTool'' \<and> includesStr line ''Description('' then
        (case firstMatch descriptionAt line of
           Some description \<Rightarrow> methodLoop lines (i + 1) (min (i + 10) (length lines)) description tools
         | None \<Rightarrow> tools)
      else tools)"

function toolLoop :: "string list \<Rightarrow> nat \<Rightarrow> jsval list \<Rightarrow> jsval list" where
  "toolLoop lines i tools =
     (if i < length lines then toolLoop lines (Suc i) (toolStep lines i tools) else tools)"
  by pat_completeness auto
termination
  by (relation "measure (\<lambda>(lines, i, tools). length lines - i)") auto

declare toolLoop.simps [simp del]

definition extractToolsFromCSharp :: "string \<Rightarrow> jsval list" where
  "extractToolsFromCSharp contents = toolLoop (splitLines contents) 0 []"

subsection \<open>\<open>parseCSharpMcpServer\<close>\<close>

text \<open>The loop that collects the front matter; the second sentinel leaves it.\<close>

fun frontMatterLoop :: "string list \<Rightarrow> bool \<Rightarrow> string list \<Rightarrow> string list" where
  "frontMatterLoop [] inFrontMatter frontMatterLines = frontMatterLines"
| "frontMatterLoop (l # ls) inFrontMatter frontMatterLines =
     (let line = trim l in
      if line = ''// ---'' then
        (if \<not> inFrontMatter then frontMatterLoop ls True frontMatterLines
         else frontMatterLines)
      else if inFrontMatter \<and> startsWith line ''//'' then
        (let yamlLine = drop 2 line in
         if startsWith yamlLine '' '' then
           frontMatterLoop ls inFrontMatter (frontMatterLines @ [yamlLine])
         else if trim yamlLine \<noteq> [] then
           frontMatterLoop ls inFrontMatter (frontMatterLines @ [trim yamlLine])
         else frontMatterLoop ls inFrontMatter (frontMatterLines @ [[]]))
      else frontMatterLoop ls inFrontMatter frontMatterLines)"

text \<open>
  The decoding of the collected lines. The loader is called only when there are lines;
  its exception is caught here and leaves the initial empty object.
\<close>

definition readMetadata :: "env \<Rightarrow> string list \<Rightarrow> jsval" where
  "readMetadata env frontMatterLines =
     (if length frontMatterLines > 0 then
        (case parseYaml env (joinLines frontMatterLines) of
           Inr v \<Rightarrow> orElse v (JObj [])
         | Inl e \<Rightarrow> JObj [])
      else JObj [])"

text \<open>
  The object literal. Its properties are evaluated in order, so the clock is read for
  \<open>lastUpdated\<close> before it is read for \<open>createdDate\<close>, each only when the operands
  before it are falsy. The state \<open>t\<close> counts the readings of the clock so far.
\<close>

definition parseCSharpMcpServer :: "env \<Rightarrow> nat \<Rightarrow> string \<Rightarrow> string \<Rightarrow> props \<times> nat" where
  "parseCSharpMcpServer env t contents filePath =
     (let lines = splitLines contents;
          frontMatterLines = frontMatterLoop lines False [];
          metadata = readMetadata env frontMatterLines;
          filename = basename env filePath ''.cs'';
          codeWithoutFrontMatter = extractCodeWithoutFrontMatter contents;
          tools = extractToolsFromCSharp contents;
          (lastUpdated, t1) =
            (if truthy (getProp metadata ''lastUpdated'') then (getProp metadata ''lastUpdated'', t)
             else (JStr (today env t), Suc t));
          (createdDate, t2) =
            (if truthy (getProp metadata ''createdDate'') then (getProp metadata ''createdDate'', t1)
             else if truthy (getProp metadata ''lastUpdated'') then (getProp metadata ''lastUpdated'', t1)
             else (JStr (today env t1), Suc t1))
      in ([(''id'', orElse (getProp metadata ''id'') (JStr filename)),
           (''name'', orElse (getProp metadata ''name'') (JStr (filename @ ''.cs''))),
           (''description'', orElse (getProp metadata ''description'') (JStr ''MCP Server'')),
           (''longDescription'',
              orElse (getProp metadata ''longDescription'')
                (orElse (getProp metadata ''description'') (JStr ''MCP Server''))),
           (''tags'',
              if isArray (getProp metadata ''tags'') then getProp metadata ''tags''
              else if truthy (getProp metadata ''tags'') then JArr [getProp metadata ''tags'']
              else JArr []),
           (''status'', orElse (getProp metadata ''status'') (JStr ''stable'')),
           (''downloads'', orElse (getProp metadata ''downloads'') (JNum 0)),
           (''lastUpdated'', lastUpdated),
           (''version'', orElse (getProp metadata ''version'') (JStr ''1.0.0'')),
           (''author'', orElse (getProp metadata ''author'') (JStr ''Unknown'')),
           (''license'', orElse (getProp metadata ''license'') (JStr ''MIT'')),
           (''createdDate'', createdDate),
           (''envVars'', orElse (getProp metadata ''envVars'') (JArr [])),
           (''tools'', JArr tools),
           (''code'', JStr contents),
           (''displayCode'', JStr codeWithoutFrontMatter)],
          t2))"

subsection \<open>The default export: the scan of the directory\<close>

text \<open>
  The loop over the files runs inside the \<open>try\<close> block and mutates \<open>servers\<close>. It
  returns the object as it is when the loop ends, together with the exception that ended
  it, if any: a failed read, or a failed conversion of the id to a property key. An id
  that is a string is its own key.
\<close>

definition propertyKey :: "env \<Rightarrow> jsval \<Rightarrow> error + string" where
  "propertyKey env v = (case v of JStr s \<Rightarrow> Inr s | _ \<Rightarrow> toPropertyKey env v)"

fun fileLoop ::
  "env \<Rightarrow> string \<Rightarrow> string list \<Rightarrow> nat \<Rightarrow> (string \<times> props) list \<Rightarrow> (string \<times> props) list \<times> error option"
where
  "fileLoop env mcpDir [] t servers = (servers, None)"
| "fileLoop env mcpDir (file # files) t servers =
     (let filePath = join env mcpDir file in
      case readFileSync env filePath of
        Inl e \<Rightarrow> (servers, Some e)
      | Inr contents \<Rightarrow>
          (case parseCSharpMcpServer env t contents filePath of
             (server, t') \<Rightarrow>
               (case propertyKey env (getProp (JObj server) ''id'') of
                  Inl e \<Rightarrow> (servers, Some e)
                | Inr key \<Rightarrow> fileLoop env mcpDir files t' (setProp servers key server))))"

text \<open>
  The \<open>try\<close> block as a whole: listing the directory may throw before the loop starts.
\<close>

definition tryBlock :: "env \<Rightarrow> (string \<times> props) list \<times> error option" where
  "tryBlock env =
     (let mcpDir = join env (moduleDir env) ''../../mcp'' in
      case readdirSync env mcpDir of
        Inl e \<Rightarrow> ([], Some e)
      | Inr entries \<Rightarrow> fileLoop env mcpDir (filter (\<lambda>f. extname env f = ''.cs'') entries) 0 [])"

text \<open>
  The \<open>catch\<close> clause only writes a warning, and the function then returns \<open>servers\<close>
  whether or not an exception was caught.
\<close>

definition servers :: "env \<Rightarrow> (string \<times> props) list" where
  "servers env = fst (tryBlock env)"

section \<open>The file \<open>serversArray.js\<close>\<close>

text \<open>
  The object literal \<open>{ id: key, ...value }\<close>: the property \<open>id\<close> is created first, and
  the spread then assigns every own property of \<open>value\<close>, in order.
\<close>

definition toEntry :: "string \<Rightarrow> props \<Rightarrow> props" where
  "toEntry key value = foldl (\<lambda>obj (k, v). setProp obj k v) [(''id'', JStr key)] value"

definition toList :: "(string \<times> props) list \<Rightarrow> props list" where
  "toList serversData = map (\<lambda>(key, value). toEntry key value) serversData"

definition serversArray :: "env \<Rightarrow> props list" where
  "serversArray env = toList (servers env)"

section \<open>Texts without a sentinel line\<close>


section \<open>The invariant of the scanned mapping\<close>


section \<open>The record the specification documents for a file without metadata\<close>


section \<open>Example inputs\<close>

text \<open>
  The inputs at which the theorems below are instantiated. The environment
  \<open>demoEnv files\<close> has the module in \<open>/site/src/_data\<close> and the given files, each
  with its contents or the error of reading it, in \<open>/site/mcp\<close>. Its path functions
  agree with those of the platform on the absolute paths used here. Its YAML loader
  knows the five documents of the example files and rejects every other text. Its
  conversion to a property key is given for the number 5 and for \<open>true\<close>, the only
  values other than strings that the examples use as an id. Its clock passes midnight
  after the first reading.
\<close>

definition lastComponent :: "string \<Rightarrow> string" where
  "lastComponent p = rev (takeWhile (\<lambda>c. c \<noteq> CHR ''/'') (rev p))"

definition demoBasename :: "string \<Rightarrow> string \<Rightarrow> string" where
  "demoBasename p ext =
     (let b = lastComponent p
      in if length ext < length b \<and> suffix ext b then take (length b - length ext) b else b)"

definition demoExtname :: "string \<Rightarrow> string" where
  "demoExtname p =
     (let b = lastComponent p; r = takeWhile (\<lambda>c. c \<noteq> CHR ''.'') (rev b)
      in if length r + 1 < length b then CHR ''.'' # rev r else [])"

fun splitPath :: "string \<Rightarrow> string list" where
  "splitPath [] = [[]]"
| "splitPath (c # cs) =
     (if c = CHR ''/'' then [] # splitPath cs
      else (case splitPath cs of s # ss \<Rightarrow> (c # s) # ss | [] \<Rightarrow> [[c]]))"

definition demoJoin :: "string \<Rightarrow> string \<Rightarrow> string" where
  "demoJoin a b =
     concat (map (\<lambda>s. CHR ''/'' # s)
       (foldl (\<lambda>acc s. if s = ''..'' then butlast acc
                         else if s = ''.'' \<or> s = [] then acc else acc @ [s])
          [] (splitPath (a @ ''/'' @ b))))"

definition demoYaml :: "string \<Rightarrow> error + jsval" where
  "demoYaml text =
     (case map_of
        [('' description: '' @ [dquote, dquote], JObj [(''description'', JStr [])]),
         (joinLines ['' id: my-server'', '' downloads: 0''],
            JObj [(''id'', JStr ''my-server''), (''downloads'', JNum 0)]),
         ('' tags: 0'', JObj [(''tags'', JNum 0)]),
         ('' tags: solo'', JObj [(''tags'', JStr ''solo'')]),
         ('' id: 5'', JObj [(''id'', JNum 5)])] text of
        Some v \<Rightarrow> Inr v
      | None \<Rightarrow> Inl (Error ''YAMLParseError''))"

definition demoEnv :: "(string \<times> (error + string)) list \<Rightarrow> env" where
  "demoEnv files =
     \<lparr> moduleDir = ''/site/src/_data'',
       join = demoJoin,
       extname = demoExtname,
       basename = demoBasename,
       readdirSync =
         (\<lambda>dir. if dir = ''/site/mcp'' then Inr (map fst files) else Inl (Error ''ENOENT'')),
       readFileSync =
         (\<lambda>path. case map_of (map (\<lambda>(f, c). (''/site/mcp/'' @ f, c)) files) path of
                    Some r \<Rightarrow> r
                  | None \<Rightarrow> Inl (Error ''ENOENT'')),
       parseYaml = demoYaml,
       today = (\<lambda>n. if n = 0 then ''2024-12-31'' else ''2025-01-01''),
       toPropertyKey =
         (\<lambda>v. case map_of [(JNum 5, ''5''), (JBool True, ''true'')] v of
                 Some k \<Rightarrow> Inr k
               | None \<Rightarrow> Inl (Error ''TypeError'')) \<rparr>"

definition fileEmptyDescription :: string where
  "fileEmptyDescription =
     joinLines [''// ---'', ''// description: '' @ [dquote, dquote], ''// ---'', ''class A {}'']"

definition fileIdDownloads :: string where
  "fileIdDownloads =
     joinLines [''// ---'', ''// id: my-server'', ''// downloads: 0'', ''// ---'', ''class A {}'']"

definition fileZeroTags :: string where
  "fileZeroTags = joinLines [''// ---'', ''// tags: 0'', ''// ---'', ''class A {}'']"

definition fileScalarTag :: string where
  "fileScalarTag = joinLines [''// ---'', ''// tags: solo'', ''// ---'', ''class A {}'']"

definition fileIdFive :: string where
  "fileIdFive = joinLines [''// ---'', ''// id: 5'', ''// ---'', ''class A {}'']"


definition filePlain :: string where
  "filePlain = joinLines [''class A {}'', ''// a &lt; b'', []]"



definition envIdFive :: env where
  "envIdFive = demoEnv [(''five.cs'', Inr fileIdFive)]"


section \<open>Occurrences of a pattern and literal replacement\<close>

lemma includesStr_iff: "includesStr s q \<longleftrightarrow> (\<exists>n. prefix q (drop n s))"
proof (induction s)
  case Nil
  then show ?case by simp
next
  case (Cons c cs)
  show ?case
  proof
    assume "includesStr (c # cs) q"
    then consider "prefix q (c # cs)" | "includesStr cs q" by auto
    then show "\<exists>n. prefix q (drop n (c # cs))"
    proof cases
      case 1
      then have "prefix q (drop 0 (c # cs))" by simp
      then show ?thesis by blast
    next
      case 2
      then obtain n where "prefix q (drop n cs)" using Cons.IH by blast
      then have "prefix q (drop (Suc n) (c # cs))" by simp
      then show ?thesis by blast
    qed
  next
    assume "\<exists>n. prefix q (drop n (c # cs))"
    then obtain n where n: "prefix q (drop n (c # cs))" by blast
    show "includesStr (c # cs) q"
    proof (cases n)
      case 0
      with n show ?thesis by simp
    next
      case (Suc m)
      with n have "prefix q (drop m cs)" by simp
      then show ?thesis using Cons.IH by auto
    qed
  qed
qed

lemma includesStr_drop: "includesStr (drop n s) q \<Longrightarrow> includesStr s q"
  unfolding includesStr_iff by (metis drop_drop)

text \<open>
  A replacement by one character that does not occur in \<open>q\<close> cannot create an
  occurrence of \<open>q\<close>: first for an occurrence at the head, then anywhere.
\<close>

lemma prefix_replaceAll:
  "c \<notin> set q \<Longrightarrow> prefix q (replaceAll p [c] s) \<Longrightarrow> prefix q s"
proof (induction p "[c]" s arbitrary: q rule: replaceAll.induct)
  case (1 p)
  then show ?case by simp
next
  case (2 p d ds)
  show ?case
  proof (cases q)
    case Nil
    then show ?thesis by simp
  next
    case (Cons e es)
    show ?thesis
    proof (cases "p \<noteq> [] \<and> prefix p (d # ds)")
      case True
      with "2.prems" Cons show ?thesis by simp
    next
      case False
      with "2.prems" Cons have "e = d" "prefix es (replaceAll p [c] ds)" "c \<notin> set es"
        by auto
      with "2.hyps"(2)[OF False] Cons show ?thesis by simp
    qed
  qed
qed

lemma replaceAll_no_new:
  "c \<notin> set q \<Longrightarrow> \<not> includesStr s q \<Longrightarrow> \<not> includesStr (replaceAll p [c] s) q"
proof (induction p "[c]" s rule: replaceAll.induct)
  case (1 p)
  then show ?case by simp
next
  case (2 p d ds)
  from "2.prems" have q: "q \<noteq> []" by (cases q) auto
  from "2.prems" have nd: "\<not> prefix q (d # ds)" and nds: "\<not> includesStr ds q" by auto
  show ?case
  proof (cases "p \<noteq> [] \<and> prefix p (d # ds)")
    case True
    have "\<not> includesStr (drop (length p - 1) ds) q"
      using nds includesStr_drop by blast
    then have "\<not> includesStr (replaceAll p [c] (drop (length p - 1) ds)) q"
      using "2.hyps"(1)[OF True "2.prems"(1)] by blast
    moreover have "\<not> prefix q (c # replaceAll p [c] (drop (length p - 1) ds))"
      using q "2.prems"(1) by (cases q) auto
    ultimately show ?thesis using True by simp
  next
    case False
    have "\<not> includesStr (replaceAll p [c] ds) q"
      using "2.hyps"(2)[OF False "2.prems"(1) nds] .
    moreover have "\<not> prefix q (d # replaceAll p [c] ds)"
    proof
      have eq: "replaceAll p [c] (d # ds) = d # replaceAll p [c] ds" using False by auto
      assume "prefix q (d # replaceAll p [c] ds)"
      then have "prefix q (replaceAll p [c] (d # ds))" unfolding eq .
      then have "prefix q (d # ds)" using prefix_replaceAll "2.prems"(1) by blast
      with nd show False by blast
    qed
    moreover have "replaceAll p [c] (d # ds) = d # replaceAll p [c] ds" using False by auto
    ultimately show ?thesis by (simp del: replaceAll.simps)
  qed
qed

text \<open>After the replacement no occurrence of the pattern itself is left.\<close>

lemma replaceAll_removes:
  "c \<notin> set p \<Longrightarrow> p \<noteq> [] \<Longrightarrow> \<not> includesStr (replaceAll p [c] s) p"
proof (induction p "[c]" s rule: replaceAll.induct)
  case (1 p)
  then show ?case by simp
next
  case (2 p d ds)
  show ?case
  proof (cases "p \<noteq> [] \<and> prefix p (d # ds)")
    case True
    have "\<not> includesStr (replaceAll p [c] (drop (length p - 1) ds)) p"
      using "2.hyps"(1)[OF True "2.prems"] .
    moreover have "\<not> prefix p (c # replaceAll p [c] (drop (length p - 1) ds))"
      using "2.prems" by (cases p) auto
    ultimately show ?thesis using True by simp
  next
    case False
    have "\<not> includesStr (replaceAll p [c] ds) p"
      using "2.hyps"(2)[OF False "2.prems"] .
    moreover have "\<not> prefix p (d # replaceAll p [c] ds)"
    proof
      have eq: "replaceAll p [c] (d # ds) = d # replaceAll p [c] ds" using False by auto
      assume "prefix p (d # replaceAll p [c] ds)"
      then have "prefix p (replaceAll p [c] (d # ds))" unfolding eq .
      then have "prefix p (d # ds)" using prefix_replaceAll "2.prems"(1) by blast
      with False "2.prems"(2) show False by blast
    qed
    moreover have "replaceAll p [c] (d # ds) = d # replaceAll p [c] ds" using False by auto
    ultimately show ?thesis by (simp del: replaceAll.simps)
  qed
qed

lemma replaceAll_absent: "\<not> includesStr s p \<Longrightarrow> replaceAll p r s = s"
  by (induction p r s rule: replaceAll.induct) auto

lemma decodeEntities_fixed:
  assumes "\<not> includesStr s ''&quot;''" "\<not> includesStr s ''&#39;''" "\<not> includesStr s ''&lt;''"
    "\<not> includesStr s ''&gt;''" "\<not> includesStr s ''&amp;''"
  shows "decodeEntities s = s"
  using assms by (simp add: decodeEntities_def replaceAll_absent)

text \<open>A replacement by one character never lengthens the text, and shortens it when the
  pattern, of two characters or more, occurs.\<close>

lemma length_replaceAll_le: "length (replaceAll p [c] s) \<le> length s"
proof (induction p "[c]" s rule: replaceAll.induct)
  case (1 p)
  then show ?case by simp
next
  case (2 p d ds)
  show ?case
  proof (cases "p \<noteq> [] \<and> prefix p (d # ds)")
    case True
    have "length (replaceAll p [c] (drop (length p - 1) ds)) \<le> length (drop (length p - 1) ds)"
      using "2.hyps"(1)[OF True] .
    then show ?thesis using True by simp
  next
    case False
    then show ?thesis using "2.hyps"(2)[OF False] by auto
  qed
qed

lemma length_replaceAll_less:
  "includesStr s p \<Longrightarrow> 2 \<le> length p \<Longrightarrow> length (replaceAll p [c] s) < length s"
proof (induction p "[c]" s rule: replaceAll.induct)
  case (1 p)
  then show ?case by auto
next
  case (2 p d ds)
  show ?case
  proof (cases "p \<noteq> [] \<and> prefix p (d # ds)")
    case True
    then have "length p \<le> Suc (length ds)" using prefix_length_le by fastforce
    moreover have "length (replaceAll p [c] (drop (length p - 1) ds)) \<le> length ds - (length p - 1)"
      using length_replaceAll_le[of p c "drop (length p - 1) ds"] by simp
    ultimately show ?thesis using True "2.prems"(2) by simp
  next
    case False
    with "2.prems" have "includesStr ds p" by (cases p) auto
    from "2.hyps"(2)[OF False this "2.prems"(2)] False show ?thesis by auto
  qed
qed

lemma decodeEntities_shortens:
  assumes "includesStr u ''&quot;'' \<or> includesStr u ''&#39;'' \<or> includesStr u ''&lt;'' \<or>
           includesStr u ''&gt;'' \<or> includesStr u ''&amp;''"
  shows "length (decodeEntities u) < length u"
proof -
  define u1 where "u1 = replaceAll ''&quot;'' [dquote] u"
  define u2 where "u2 = replaceAll ''&#39;'' [squote] u1"
  define u3 where "u3 = replaceAll ''&lt;'' ''<'' u2"
  define u4 where "u4 = replaceAll ''&gt;'' ''>'' u3"
  define u5 where "u5 = replaceAll ''&amp;'' ''&'' u4"
  have d: "decodeEntities u = u5"
    by (simp add: decodeEntities_def u1_def u2_def u3_def u4_def u5_def)
  have le: "length u1 \<le> length u" "length u2 \<le> length u1" "length u3 \<le> length u2"
    "length u4 \<le> length u3" "length u5 \<le> length u4"
    unfolding u1_def u2_def u3_def u4_def u5_def by (rule length_replaceAll_le)+
  have s1: "length u1 < length u" if "includesStr u ''&quot;''"
    unfolding u1_def using that by (rule length_replaceAll_less) simp
  have s2: "length u2 < length u1" if "includesStr u1 ''&#39;''"
    unfolding u2_def using that by (rule length_replaceAll_less) simp
  have s3: "length u3 < length u2" if "includesStr u2 ''&lt;''"
    unfolding u3_def using that by (rule length_replaceAll_less) simp
  have s4: "length u4 < length u3" if "includesStr u3 ''&gt;''"
    unfolding u4_def using that by (rule length_replaceAll_less) simp
  have s5: "length u5 < length u4" if "includesStr u4 ''&amp;''"
    unfolding u5_def using that by (rule length_replaceAll_less) simp
  have e1: "u1 = u" if "\<not> includesStr u ''&quot;''"
    unfolding u1_def using that by (rule replaceAll_absent)
  have e2: "u2 = u1" if "\<not> includesStr u1 ''&#39;''"
    unfolding u2_def using that by (rule replaceAll_absent)
  have e3: "u3 = u2" if "\<not> includesStr u2 ''&lt;''"
    unfolding u3_def using that by (rule replaceAll_absent)
  have e4: "u4 = u3" if "\<not> includesStr u3 ''&gt;''"
    unfolding u4_def using that by (rule replaceAll_absent)
  have "length u5 < length u"
  proof (cases "includesStr u ''&quot;''")
    case True
    from s1[OF True] le show ?thesis by linarith
  next
    case n1: False
    note u1 = e1[OF n1]
    show ?thesis
    proof (cases "includesStr u1 ''&#39;''")
      case True
      from s2[OF True] le show ?thesis by linarith
    next
      case n2: False
      note u2 = e2[OF n2]
      show ?thesis
      proof (cases "includesStr u2 ''&lt;''")
        case True
        from s3[OF True] le show ?thesis by linarith
      next
        case n3: False
        note u3 = e3[OF n3]
        show ?thesis
        proof (cases "includesStr u3 ''&gt;''")
          case True
          from s4[OF True] le show ?thesis by linarith
        next
          case n4: False
          note u4 = e4[OF n4]
          have "includesStr u4 ''&amp;''"
            using assms n1 n2 n3 n4 unfolding u4 u3 u2 u1 by blast
          from s5[OF this] le show ?thesis by linarith
        qed
      qed
    qed
  qed
  then show ?thesis unfolding d .
qed

section \<open>The entity decoding is not idempotent (claim C2)\<close>

text \<open>
  Claim C2 says that the five replacements, applied to their own output, give the same
  text again, for every text. They do not: the last replacement turns \<open>&amp;\<close> into
  \<open>&\<close>, and the text after it can complete an entity that the second application
  decodes. The text \<open>&amp;lt;\<close> becomes \<open>&lt;\<close>, and that becomes \<open><\<close>.
\<close>

theorem decodeEntities_not_idempotent:
  "decodeEntities ''&amp;lt;'' = ''&lt;'' \<and> decodeEntities (decodeEntities ''&amp;lt;'') = ''<'' \<and>
   decodeEntities (decodeEntities ''&amp;lt;'') \<noteq> decodeEntities ''&amp;lt;''"
  by code_simp

text \<open>
  Claim C2, amended: the five replacements applied to their own output give the same
  text again exactly when that output contains none of the five entities, and this is
  so for every text in which \<open>&amp;\<close> does not occur. The first four replacements
  remove their entities and create no other one, since the characters they insert occur
  in no entity; the fifth then finds nothing to replace. A text that contains an entity
  is shortened by the replacements, and so is not left as it is.
\<close>

theorem decodeEntities_idempotent_without_amp:
  "(\<not> includesStr text ''&amp;'' \<longrightarrow>
      decodeEntities (decodeEntities text) = decodeEntities text) \<and>
   ((decodeEntities (decodeEntities text) = decodeEntities text) \<longleftrightarrow>
      \<not> (includesStr (decodeEntities text) ''&quot;'' \<or>
         includesStr (decodeEntities text) ''&#39;'' \<or>
         includesStr (decodeEntities text) ''&lt;'' \<or>
         includesStr (decodeEntities text) ''&gt;'' \<or>
         includesStr (decodeEntities text) ''&amp;''))"
proof (intro conjI impI iffI)
  assume amp: "\<not> includesStr text ''&amp;''"
  define t1 where "t1 = replaceAll ''&quot;'' [dquote] text"
  define t2 where "t2 = replaceAll ''&#39;'' [squote] t1"
  define t3 where "t3 = replaceAll ''&lt;'' ''<'' t2"
  define t4 where "t4 = replaceAll ''&gt;'' ''>'' t3"
  have a1: "\<not> includesStr t1 ''&amp;''"
    unfolding t1_def using amp by (intro replaceAll_no_new) simp_all
  have q1: "\<not> includesStr t1 ''&quot;''"
    unfolding t1_def by (intro replaceAll_removes) simp_all
  have a2: "\<not> includesStr t2 ''&amp;''"
    unfolding t2_def using a1 by (intro replaceAll_no_new) simp_all
  have q2: "\<not> includesStr t2 ''&quot;''"
    unfolding t2_def using q1 by (intro replaceAll_no_new) simp_all
  have s2: "\<not> includesStr t2 ''&#39;''"
    unfolding t2_def by (intro replaceAll_removes) simp_all
  have a3: "\<not> includesStr t3 ''&amp;''"
    unfolding t3_def using a2 by (intro replaceAll_no_new) simp_all
  have q3: "\<not> includesStr t3 ''&quot;''"
    unfolding t3_def using q2 by (intro replaceAll_no_new) simp_all
  have s3: "\<not> includesStr t3 ''&#39;''"
    unfolding t3_def using s2 by (intro replaceAll_no_new) simp_all
  have l3: "\<not> includesStr t3 ''&lt;''"
    unfolding t3_def by (intro replaceAll_removes) simp_all
  have a4: "\<not> includesStr t4 ''&amp;''"
    unfolding t4_def using a3 by (intro replaceAll_no_new) simp_all
  have q4: "\<not> includesStr t4 ''&quot;''"
    unfolding t4_def using q3 by (intro replaceAll_no_new) simp_all
  have s4: "\<not> includesStr t4 ''&#39;''"
    unfolding t4_def using s3 by (intro replaceAll_no_new) simp_all
  have l4: "\<not> includesStr t4 ''&lt;''"
    unfolding t4_def using l3 by (intro replaceAll_no_new) simp_all
  have g4: "\<not> includesStr t4 ''&gt;''"
    unfolding t4_def by (intro replaceAll_removes) simp_all
  have "decodeEntities text = replaceAll ''&amp;'' ''&'' t4"
    by (simp add: decodeEntities_def t1_def t2_def t3_def t4_def)
  also have "\<dots> = t4" using a4 by (rule replaceAll_absent)
  finally have d: "decodeEntities text = t4" .
  show "decodeEntities (decodeEntities text) = decodeEntities text"
    unfolding d using q4 s4 l4 g4 a4 by (rule decodeEntities_fixed)
next
  assume fixed: "decodeEntities (decodeEntities text) = decodeEntities text"
  show "\<not> (includesStr (decodeEntities text) ''&quot;'' \<or>
         includesStr (decodeEntities text) ''&#39;'' \<or>
         includesStr (decodeEntities text) ''&lt;'' \<or>
         includesStr (decodeEntities text) ''&gt;'' \<or>
         includesStr (decodeEntities text) ''&amp;'')"
  proof
    assume "includesStr (decodeEntities text) ''&quot;'' \<or>
         includesStr (decodeEntities text) ''&#39;'' \<or>
         includesStr (decodeEntities text) ''&lt;'' \<or>
         includesStr (decodeEntities text) ''&gt;'' \<or>
         includesStr (decodeEntities text) ''&amp;''"
    then have "length (decodeEntities (decodeEntities text)) < length (decodeEntities text)"
      by (rule decodeEntities_shortens)
    with fixed show False by simp
  qed
next
  assume "\<not> (includesStr (decodeEntities text) ''&quot;'' \<or>
         includesStr (decodeEntities text) ''&#39;'' \<or>
         includesStr (decodeEntities text) ''&lt;'' \<or>
         includesStr (decodeEntities text) ''&gt;'' \<or>
         includesStr (decodeEntities text) ''&amp;'')"
  then show "decodeEntities (decodeEntities text) = decodeEntities text"
    by (intro decodeEntities_fixed) simp_all
qed

text \<open>
  The amended claim at a text with three entities and no \<open>&amp;\<close>: its decoding is
  \<open>a < b > 'c'\<close>, and decoding that again changes nothing.
\<close>

theorem decodeEntities_idempotent_witness:
  "\<not> includesStr ''a &lt; b &gt; &#39;c&#39;'' ''&amp;'' \<and>
   decodeEntities ''a &lt; b &gt; &#39;c&#39;'' = ''a < b > '' @ [squote] @ ''c'' @ [squote] \<and>
   decodeEntities (decodeEntities ''a &lt; b &gt; &#39;c&#39;'') =
     decodeEntities ''a &lt; b &gt; &#39;c&#39;''"
proof -
  have h: "\<not> includesStr ''a &lt; b &gt; &#39;c&#39;'' ''&amp;''" by code_simp
  have v: "decodeEntities ''a &lt; b &gt; &#39;c&#39;'' = ''a < b > '' @ [squote] @ ''c'' @ [squote]"
    by code_simp
  note T = decodeEntities_idempotent_without_amp [of "''a &lt; b &gt; &#39;c&#39;''"]
  show ?thesis
    by (intro conjI h v T[THEN conjunct1, rule_format, OF h])
qed

section \<open>Tool extraction (claim C5)\<close>











section \<open>The fields of a parsed server\<close>

lemma getProp_orElse_empty: "getProp (orElse v (JObj [])) k = getProp v k"
  by (cases v) (simp_all add: orElse_def)

lemma readMetadata_success:
  "frontMatterLines \<noteq> [] \<Longrightarrow> parseYaml env (joinLines frontMatterLines) = Inr v \<Longrightarrow>
   getProp (readMetadata env frontMatterLines) k = getProp v k"
  by (simp add: readMetadata_def getProp_orElse_empty)



lemma parseCSharpMcpServer_fst:
  "fst (parseCSharpMcpServer env t contents filePath) =
     (let metadata = readMetadata env (frontMatterLoop (splitLines contents) False []);
          filename = basename env filePath ''.cs''
      in [(''id'', orElse (getProp metadata ''id'') (JStr filename)),
          (''name'', orElse (getProp metadata ''name'') (JStr (filename @ ''.cs''))),
          (''description'', orElse (getProp metadata ''description'') (JStr ''MCP Server'')),
          (''longDescription'',
             orElse (getProp metadata ''longDescription'')
               (orElse (getProp metadata ''description'') (JStr ''MCP Server''))),
          (''tags'',
             if isArray (getProp metadata ''tags'') then getProp metadata ''tags''
             else if truthy (getProp metadata ''tags'') then JArr [getProp metadata ''tags'']
             else JArr []),
          (''status'', orElse (getProp metadata ''status'') (JStr ''stable'')),
          (''downloads'', orElse (getProp metadata ''downloads'') (JNum 0)),
          (''lastUpdated'',
             if truthy (getProp metadata ''lastUpdated'') then getProp metadata ''lastUpdated''
             else JStr (today env t)),
          (''version'', orElse (getProp metadata ''version'') (JStr ''1.0.0'')),
          (''author'', orElse (getProp metadata ''author'') (JStr ''Unknown'')),
          (''license'', orElse (getProp metadata ''license'') (JStr ''MIT'')),
          (''createdDate'',
             if truthy (getProp metadata ''createdDate'') then getProp metadata ''createdDate''
             else if truthy (getProp metadata ''lastUpdated'') then getProp metadata ''lastUpdated''
             else JStr (today env (Suc t))),
          (''envVars'', orElse (getProp metadata ''envVars'') (JArr [])),
          (''tools'', JArr (extractToolsFromCSharp contents)),
          (''code'', JStr contents),
          (''displayCode'', JStr (extractCodeWithoutFrontMatter contents))])"
  by (simp add: parseCSharpMcpServer_def Let_def)

lemma parseCSharpMcpServer_snd:
  "snd (parseCSharpMcpServer env t contents filePath) =
     (let metadata = readMetadata env (frontMatterLoop (splitLines contents) False [])
      in if truthy (getProp metadata ''lastUpdated'') then t
         else if truthy (getProp metadata ''createdDate'') then Suc t
         else Suc (Suc t))"
  by (simp add: parseCSharpMcpServer_def Let_def)




section \<open>Explicit fields and defaults (claim C3)\<close>

text \<open>
  Claim C3 says that every field explicitly present in the decoded mapping appears
  unchanged in the record. The fallback is the operator \<open>||\<close>, which also replaces a
  value that is present and falsy. A front matter with \<open>description: ""\<close> decodes to a
  mapping whose description is the empty string, and the record has the default
  description instead.
\<close>

theorem explicit_empty_description_replaced:
  "parseYaml (demoEnv [])
     (joinLines (frontMatterLoop (splitLines fileEmptyDescription) False [])) =
     Inr (JObj [(''description'', JStr [])]) \<and>
   getProp (JObj (fst (parseCSharpMcpServer (demoEnv []) 0 fileEmptyDescription ''/site/mcp/a.cs'')))
     ''description'' = JStr ''MCP Server''"
  by code_simp

text \<open>
  Claim C3, amended: for every file whose front matter decodes, a field whose decoded
  value is truthy has that value in the record, and a field that is absent or whose
  decoded value is falsy (\<open>null\<close>, \<open>false\<close>, \<open>0\<close>, \<open>NaN\<close>, the empty string) has its
  default: the file name without extension for \<open>id\<close>, the file name with \<open>.cs\<close> for
  \<open>name\<close>, \<open>MCP Server\<close> for \<open>description\<close>, the resolved description for
  \<open>longDescription\<close>, \<open>stable\<close>, \<open>0\<close>, \<open>1.0.0\<close>, \<open>Unknown\<close>, \<open>MIT\<close>, the empty
  sequence for \<open>envVars\<close>, the date of a reading of the clock for \<open>lastUpdated\<close>, and the
  decoded \<open>lastUpdated\<close> or else the date of the next reading for \<open>createdDate\<close>. For
  \<open>tags\<close> a sequence is kept, a truthy value that is not a sequence is wrapped, and
  anything else gives the empty sequence.
\<close>

theorem truthy_fields_kept_others_defaulted:
  assumes "frontMatterLoop (splitLines contents) False [] \<noteq> []"
    and "parseYaml env (joinLines (frontMatterLoop (splitLines contents) False [])) = Inr decoded"
  shows
    "let server = JObj (fst (parseCSharpMcpServer env t contents filePath));
         filename = basename env filePath ''.cs''
     in getProp server ''id'' =
          (if truthy (getProp decoded ''id'') then getProp decoded ''id'' else JStr filename) \<and>
        getProp server ''name'' =
          (if truthy (getProp decoded ''name'') then getProp decoded ''name''
           else JStr (filename @ ''.cs'')) \<and>
        getProp server ''description'' =
          (if truthy (getProp decoded ''description'') then getProp decoded ''description''
           else JStr ''MCP Server'') \<and>
        getProp server ''longDescription'' =
          (if truthy (getProp decoded ''longDescription'') then getProp decoded ''longDescription''
           else if truthy (getProp decoded ''description'') then getProp decoded ''description''
           else JStr ''MCP Server'') \<and>
        getProp server ''tags'' =
          (if isArray (getProp decoded ''tags'') then getProp decoded ''tags''
           else if truthy (getProp decoded ''tags'') then JArr [getProp decoded ''tags'']
           else JArr []) \<and>
        getProp server ''status'' =
          (if truthy (getProp decoded ''status'') then getProp decoded ''status''
           else JStr ''stable'') \<and>
        getProp server ''downloads'' =
          (if truthy (getProp decoded ''downloads'') then getProp decoded ''downloads''
           else JNum 0) \<and>
        getProp server ''lastUpdated'' =
          (if truthy (getProp decoded ''lastUpdated'') then getProp decoded ''lastUpdated''
           else JStr (today env t)) \<and>
        getProp server ''version'' =
          (if truthy (getProp decoded ''version'') then getProp decoded ''version''
           else JStr ''1.0.0'') \<and>
        getProp server ''author'' =
          (if truthy (getProp decoded ''author'') then getProp decoded ''author''
           else JStr ''Unknown'') \<and>
        getProp server ''license'' =
          (if truthy (getProp decoded ''license'') then getProp decoded ''license''
           else JStr ''MIT'') \<and>
        getProp server ''createdDate'' =
          (if truthy (getProp decoded ''createdDate'') then getProp decoded ''createdDate''
           else if truthy (getProp decoded ''lastUpdated'') then getProp decoded ''lastUpdated''
           else JStr (today env (Suc t))) \<and>
        getProp server ''envVars'' =
          (if truthy (getProp decoded ''envVars'') then getProp decoded ''envVars''
           else JArr [])"
proof -
  note md = readMetadata_success[OF assms]
  show ?thesis
    unfolding Let_def
    by (intro conjI) (simp_all add: parseCSharpMcpServer_fst Let_def orElse_def md)
qed

text \<open>
  The amended claim at a file whose front matter gives \<open>id: my-server\<close> and
  \<open>downloads: 0\<close>: the id is kept, the absent name is the file name, and the falsy
  number of downloads is the default, which is the same number.
\<close>

theorem truthy_fields_kept_witness:
  "frontMatterLoop (splitLines fileIdDownloads) False [] \<noteq> [] \<and>
   parseYaml (demoEnv []) (joinLines (frontMatterLoop (splitLines fileIdDownloads) False [])) =
     Inr (JObj [(''id'', JStr ''my-server''), (''downloads'', JNum 0)]) \<and>
   getProp (JObj (fst (parseCSharpMcpServer (demoEnv []) 0 fileIdDownloads ''/site/mcp/a.cs'')))
     ''id'' = JStr ''my-server'' \<and>
   getProp (JObj (fst (parseCSharpMcpServer (demoEnv []) 0 fileIdDownloads ''/site/mcp/a.cs'')))
     ''name'' = JStr ''a.cs'' \<and>
   getProp (JObj (fst (parseCSharpMcpServer (demoEnv []) 0 fileIdDownloads ''/site/mcp/a.cs'')))
     ''downloads'' = JNum 0"
proof -
  define D where "D = JObj [(''id'', JStr ''my-server''), (''downloads'', JNum 0)]"
  have h1: "frontMatterLoop (splitLines fileIdDownloads) False [] \<noteq> []" by code_simp
  have h2: "parseYaml (demoEnv [])
              (joinLines (frontMatterLoop (splitLines fileIdDownloads) False [])) = Inr D"
    unfolding D_def by code_simp
  have b: "basename (demoEnv []) ''/site/mcp/a.cs'' ''.cs'' = ''a''" by code_simp
  have d: "getProp D ''id'' = JStr ''my-server''" "getProp D ''name'' = JUndefined"
    "getProp D ''downloads'' = JNum 0"
    unfolding D_def by simp_all
  note T = truthy_fields_kept_others_defaulted
             [OF h1 h2, of 0 "''/site/mcp/a.cs''", unfolded Let_def b]
  have f1: "getProp (JObj (fst (parseCSharpMcpServer (demoEnv []) 0 fileIdDownloads
              ''/site/mcp/a.cs''))) ''id'' = JStr ''my-server''"
    using T[THEN conjunct1] by (simp add: d)
  have f2: "getProp (JObj (fst (parseCSharpMcpServer (demoEnv []) 0 fileIdDownloads
              ''/site/mcp/a.cs''))) ''name'' = JStr ''a.cs''"
    using T[THEN conjunct2, THEN conjunct1] by (simp add: d)
  have f3: "getProp (JObj (fst (parseCSharpMcpServer (demoEnv []) 0 fileIdDownloads
              ''/site/mcp/a.cs''))) ''downloads'' = JNum 0"
    using T[THEN conjunct2, THEN conjunct2, THEN conjunct2, THEN conjunct2, THEN conjunct2,
            THEN conjunct2, THEN conjunct1] by (simp add: d)
  show ?thesis
    unfolding D_def[symmetric] by (intro conjI h1 h2 f1 f2 f3)
qed

section \<open>A scalar value for the tags (claim C4)\<close>

text \<open>
  Claim C4 says that a scalar value for \<open>tags\<close> always becomes a sequence of that one
  value. The source wraps the value only when it is truthy. A front matter with
  \<open>tags: 0\<close> decodes to the number zero, a scalar, and the record has no tag at all.
\<close>

theorem zero_tags_dropped:
  "parseYaml (demoEnv []) (joinLines (frontMatterLoop (splitLines fileZeroTags) False [])) =
     Inr (JObj [(''tags'', JNum 0)]) \<and>
   getProp (JObj (fst (parseCSharpMcpServer (demoEnv []) 0 fileZeroTags ''/site/mcp/a.cs'')))
     ''tags'' = JArr []"
  by code_simp

text \<open>
  Claim C4, amended: for every file whose front matter decodes, a value of \<open>tags\<close> that
  is not a sequence and is truthy gives the sequence of exactly that value; when \<open>tags\<close>
  is absent, or is a falsy scalar (\<open>null\<close>, \<open>false\<close>, \<open>0\<close>, \<open>NaN\<close>, the empty string),
  the record has the empty sequence.
\<close>

theorem truthy_scalar_tags_wrapped:
  assumes "frontMatterLoop (splitLines contents) False [] \<noteq> []"
    and "parseYaml env (joinLines (frontMatterLoop (splitLines contents) False [])) = Inr decoded"
  shows
    "(\<not> isArray (getProp decoded ''tags'') \<and> truthy (getProp decoded ''tags'') \<longrightarrow>
        getProp (JObj (fst (parseCSharpMcpServer env t contents filePath))) ''tags'' =
          JArr [getProp decoded ''tags'']) \<and>
     (\<not> truthy (getProp decoded ''tags'') \<longrightarrow>
        getProp (JObj (fst (parseCSharpMcpServer env t contents filePath))) ''tags'' = JArr []) \<and>
     (getProp decoded ''tags'' = JUndefined \<longrightarrow>
        getProp (JObj (fst (parseCSharpMcpServer env t contents filePath))) ''tags'' = JArr [])"
proof -
  note md = readMetadata_success[OF assms]
  have falsy: "\<not> isArray v" if "\<not> truthy v" for v
    using that by (cases v) simp_all
  show ?thesis
    by (intro conjI impI) (simp_all add: parseCSharpMcpServer_fst Let_def md falsy)
qed

text \<open>
  The amended claim at three files: one whose front matter gives \<open>tags: solo\<close>, where
  the record has the sequence of that one string; one that gives \<open>tags: 0\<close>; and one
  that gives no tags. The last two have the empty sequence.
\<close>

theorem truthy_scalar_tags_witness:
  "parseYaml (demoEnv []) (joinLines (frontMatterLoop (splitLines fileScalarTag) False [])) =
     Inr (JObj [(''tags'', JStr ''solo'')]) \<and>
   getProp (JObj (fst (parseCSharpMcpServer (demoEnv []) 0 fileScalarTag ''/site/mcp/a.cs'')))
     ''tags'' = JArr [JStr ''solo''] \<and>
   parseYaml (demoEnv []) (joinLines (frontMatterLoop (splitLines fileZeroTags) False [])) =
     Inr (JObj [(''tags'', JNum 0)]) \<and>
   getProp (JObj (fst (parseCSharpMcpServer (demoEnv []) 0 fileZeroTags ''/site/mcp/a.cs'')))
     ''tags'' = JArr [] \<and>
   parseYaml (demoEnv []) (joinLines (frontMatterLoop (splitLines fileIdDownloads) False [])) =
     Inr (JObj [(''id'', JStr ''my-server''), (''downloads'', JNum 0)]) \<and>
   getProp (JObj (fst (parseCSharpMcpServer (demoEnv []) 0 fileIdDownloads ''/site/mcp/a.cs'')))
     ''tags'' = JArr []"
proof -
  define D where "D = JObj [(''tags'', JStr ''solo'')]"
  define Z where "Z = JObj [(''tags'', JNum 0)]"
  define N where "N = JObj [(''id'', JStr ''my-server''), (''downloads'', JNum 0)]"
  have d1: "frontMatterLoop (splitLines fileScalarTag) False [] \<noteq> []" by code_simp
  have d2: "parseYaml (demoEnv [])
              (joinLines (frontMatterLoop (splitLines fileScalarTag) False [])) = Inr D"
    unfolding D_def by code_simp
  have d3: "\<not> isArray (getProp D ''tags'') \<and> truthy (getProp D ''tags'')"
    unfolding D_def by simp
  have d4: "getProp D ''tags'' = JStr ''solo''" unfolding D_def by simp
  have z1: "frontMatterLoop (splitLines fileZeroTags) False [] \<noteq> []" by code_simp
  have z2: "parseYaml (demoEnv [])
              (joinLines (frontMatterLoop (splitLines fileZeroTags) False [])) = Inr Z"
    unfolding Z_def by code_simp
  have z3: "\<not> truthy (getProp Z ''tags'')" unfolding Z_def by simp
  have n1: "frontMatterLoop (splitLines fileIdDownloads) False [] \<noteq> []" by code_simp
  have n2: "parseYaml (demoEnv [])
              (joinLines (frontMatterLoop (splitLines fileIdDownloads) False [])) = Inr N"
    unfolding N_def by code_simp
  have n3: "getProp N ''tags'' = JUndefined" unfolding N_def by simp
  note TD = truthy_scalar_tags_wrapped [OF d1 d2, of 0 "''/site/mcp/a.cs''"]
  note TZ = truthy_scalar_tags_wrapped [OF z1 z2, of 0 "''/site/mcp/a.cs''"]
  note TN = truthy_scalar_tags_wrapped [OF n1 n2, of 0 "''/site/mcp/a.cs''"]
  have fd: "getProp (JObj (fst (parseCSharpMcpServer (demoEnv []) 0 fileScalarTag
              ''/site/mcp/a.cs''))) ''tags'' = JArr [JStr ''solo'']"
    using TD[THEN conjunct1, rule_format, OF d3] unfolding d4 .
  have fz: "getProp (JObj (fst (parseCSharpMcpServer (demoEnv []) 0 fileZeroTags
              ''/site/mcp/a.cs''))) ''tags'' = JArr []"
    using TZ[THEN conjunct2, THEN conjunct1, rule_format, OF z3] .
  have fn: "getProp (JObj (fst (parseCSharpMcpServer (demoEnv []) 0 fileIdDownloads
              ''/site/mcp/a.cs''))) ''tags'' = JArr []"
    using TN[THEN conjunct2, THEN conjunct2, rule_format, OF n3] .
  show ?thesis
    unfolding D_def[symmetric] Z_def[symmetric] N_def[symmetric]
    by (intro conjI d2 fd z2 fz n2 fn)
qed

section \<open>A file without a sentinel line (claim C7)\<close>




section \<open>The default of the creation date (claim C8)\<close>

text \<open>
  Claim C8 says that, with both dates absent, \<open>createdDate\<close> takes the resolved value of
  \<open>lastUpdated\<close> and is not computed from the clock on its own. The fallback chain of
  \<open>createdDate\<close> reads the decoded \<open>lastUpdated\<close>, not the resolved one, and ends in
  its own \<open>new Date()\<close>. In a build whose first reading of the clock is on 2024-12-31
  and whose second reading is on 2025-01-01, the two fields of a file without front
  matter differ.
\<close>

theorem createdDate_read_separately:
  "getProp (JObj (fst (parseCSharpMcpServer (demoEnv []) 0 filePlain ''/site/mcp/a.cs'')))
     ''lastUpdated'' = JStr ''2024-12-31'' \<and>
   getProp (JObj (fst (parseCSharpMcpServer (demoEnv []) 0 filePlain ''/site/mcp/a.cs'')))
     ''createdDate'' = JStr ''2025-01-01''"
  by code_simp

text \<open>
  Claim C8, amended: when the metadata has neither a truthy \<open>createdDate\<close> nor a truthy
  \<open>lastUpdated\<close>, \<open>lastUpdated\<close> is the date of one reading of the clock and
  \<open>createdDate\<close> is the date of the next reading, made for it alone; the two fields are
  equal when both readings give the same date.
\<close>

theorem both_dates_absent_two_readings:
  assumes "\<not> truthy (getProp (readMetadata env (frontMatterLoop (splitLines contents) False []))
                        ''createdDate'')"
    and "\<not> truthy (getProp (readMetadata env (frontMatterLoop (splitLines contents) False []))
                        ''lastUpdated'')"
  shows
    "getProp (JObj (fst (parseCSharpMcpServer env t contents filePath))) ''lastUpdated'' =
       JStr (today env t) \<and>
     getProp (JObj (fst (parseCSharpMcpServer env t contents filePath))) ''createdDate'' =
       JStr (today env (Suc t)) \<and>
     snd (parseCSharpMcpServer env t contents filePath) = Suc (Suc t) \<and>
     (today env (Suc t) = today env t \<longrightarrow>
        getProp (JObj (fst (parseCSharpMcpServer env t contents filePath))) ''createdDate'' =
        getProp (JObj (fst (parseCSharpMcpServer env t contents filePath))) ''lastUpdated'')"
  using assms
  by (intro conjI impI)
     (simp_all add: parseCSharpMcpServer_fst parseCSharpMcpServer_snd Let_def)

text \<open>
  The amended claim at a file whose front matter gives only \<open>tags: solo\<close>, parsed when
  the clock has been read once before: both readings are after midnight, and the two
  fields are equal.
\<close>

theorem both_dates_absent_witness:
  "\<not> truthy (getProp (readMetadata (demoEnv [])
                (frontMatterLoop (splitLines fileScalarTag) False [])) ''createdDate'') \<and>
   \<not> truthy (getProp (readMetadata (demoEnv [])
                (frontMatterLoop (splitLines fileScalarTag) False [])) ''lastUpdated'') \<and>
   today (demoEnv []) (Suc 1) = today (demoEnv []) 1 \<and>
   getProp (JObj (fst (parseCSharpMcpServer (demoEnv []) 1 fileScalarTag ''/site/mcp/a.cs'')))
     ''lastUpdated'' = JStr ''2025-01-01'' \<and>
   getProp (JObj (fst (parseCSharpMcpServer (demoEnv []) 1 fileScalarTag ''/site/mcp/a.cs'')))
     ''createdDate'' =
   getProp (JObj (fst (parseCSharpMcpServer (demoEnv []) 1 fileScalarTag ''/site/mcp/a.cs'')))
     ''lastUpdated''"
proof -
  have h1: "\<not> truthy (getProp (readMetadata (demoEnv [])
                (frontMatterLoop (splitLines fileScalarTag) False [])) ''createdDate'')"
    by code_simp
  have h2: "\<not> truthy (getProp (readMetadata (demoEnv [])
                (frontMatterLoop (splitLines fileScalarTag) False [])) ''lastUpdated'')"
    by code_simp
  have d: "today (demoEnv []) 1 = ''2025-01-01''" by code_simp
  have h3: "today (demoEnv []) (Suc 1) = today (demoEnv []) 1" by code_simp
  note T = both_dates_absent_two_readings [OF h1 h2, of 1 "''/site/mcp/a.cs''"]
  have f1: "getProp (JObj (fst (parseCSharpMcpServer (demoEnv []) 1 fileScalarTag
              ''/site/mcp/a.cs''))) ''lastUpdated'' = JStr ''2025-01-01''"
    using T[THEN conjunct1] unfolding d .
  have f2: "getProp (JObj (fst (parseCSharpMcpServer (demoEnv []) 1 fileScalarTag
              ''/site/mcp/a.cs''))) ''createdDate'' =
            getProp (JObj (fst (parseCSharpMcpServer (demoEnv []) 1 fileScalarTag
              ''/site/mcp/a.cs''))) ''lastUpdated''"
    using T[THEN conjunct2, THEN conjunct2, THEN conjunct2, rule_format, OF h3] .
  show ?thesis by (intro conjI h1 h2 h3 f1 f2)
qed

section \<open>Assignment to a property\<close>

lemma setProp_Nil: "setProp [] k v = [(k, v)]"
  by (simp add: setProp_def)



lemma map_of_insertIndex:
  "map_of ps k = None \<Longrightarrow> map_of (insertIndex k v ps) k' = (if k' = k then Some v else map_of ps k')"
  by (induction ps) (auto split: if_splits)

lemma map_of_replace:
  "map_of (map (\<lambda>(k', v'). if k' = k then (k', v) else (k', v')) ps) k' =
     (if k' = k then map_option (\<lambda>x. v) (map_of ps k) else map_of ps k')"
  by (induction ps) auto

lemma map_of_setProp: "map_of (setProp ps k v) k' = (if k' = k then Some v else map_of ps k')"
  by (auto simp: setProp_def map_of_insertIndex map_of_replace map_add_def split: option.splits)

lemma map_of_spread:
  "map_of (foldl (\<lambda>obj (k, v). setProp obj k v) base value) k' =
     (case map_of (rev value) k' of Some v \<Rightarrow> Some v | None \<Rightarrow> map_of base k')"
proof (induction "value" arbitrary: base)
  case Nil
  then show ?case by simp
next
  case (Cons p ps)
  obtain k v where p: "p = (k, v)" by (cases p)
  show ?case
    by (simp add: p Cons.IH map_of_setProp map_add_def split: option.splits)
qed

lemma map_of_rev_distinct: "distinct (map fst ps) \<Longrightarrow> map_of (rev ps) = map_of ps"
  by (rule map_of_inject_set[THEN iffD2]) (simp_all add: distinct_rev rev_map[symmetric])

lemma getProp_toEntry:
  assumes "distinct (map fst value)"
  shows "getProp (JObj (toEntry key value)) k =
           (if k = ''id'' \<and> map_of value ''id'' = None then JStr key
            else getProp (JObj value) k)"
  by (auto simp: toEntry_def map_of_spread map_of_rev_distinct[OF assms] split: option.splits)

section \<open>The loop over the files\<close>


lemma fileLoop_stored:
  "readFileSync env (join env mcpDir f) = Inr contents \<Longrightarrow>
   propertyKey env
     (getProp (JObj (fst (parseCSharpMcpServer env t contents (join env mcpDir f)))) ''id'') =
     Inr key \<Longrightarrow>
   fileLoop env mcpDir (f # files) t mapping =
     fileLoop env mcpDir files (snd (parseCSharpMcpServer env t contents (join env mcpDir f)))
       (setProp mapping key (fst (parseCSharpMcpServer env t contents (join env mcpDir f))))"
  by (cases "parseCSharpMcpServer env t contents (join env mcpDir f)") (simp add: Let_def)




lemma toEntry_sixteen:
  "toEntry key
     [(''id'', a1), (''name'', a2), (''description'', a3), (''longDescription'', a4),
      (''tags'', a5), (''status'', a6), (''downloads'', a7), (''lastUpdated'', a8),
      (''version'', a9), (''author'', a10), (''license'', a11), (''createdDate'', a12),
      (''envVars'', a13), (''tools'', a14), (''code'', a15), (''displayCode'', a16)] =
     [(''id'', a1), (''name'', a2), (''description'', a3), (''longDescription'', a4),
      (''tags'', a5), (''status'', a6), (''downloads'', a7), (''lastUpdated'', a8),
      (''version'', a9), (''author'', a10), (''license'', a11), (''createdDate'', a12),
      (''envVars'', a13), (''tools'', a14), (''code'', a15), (''displayCode'', a16)]"
  by (simp add: toEntry_def setProp_def isArrayIndex_def isDigit_def)

lemma toEntry_parsed:
  "toEntry key (fst (parseCSharpMcpServer env t contents filePath)) =
     fst (parseCSharpMcpServer env t contents filePath)"
  unfolding parseCSharpMcpServer_fst Let_def by (rule toEntry_sixteen)


section \<open>A front matter that does not decode (claim C9)\<close>



section \<open>The scan of a directory with a file that cannot be read\<close>


section \<open>A file that cannot be read (claim C1)\<close>




section \<open>The scan of a file whose id is a number\<close>

lemma servers_envIdFive:
  "servers envIdFive =
     [(''5'', fst (parseCSharpMcpServer envIdFive 0 fileIdFive ''/site/mcp/five.cs''))]"
proof -
  have dir: "join envIdFive (moduleDir envIdFive) ''../../mcp'' = ''/site/mcp''" by code_simp
  have ls: "readdirSync envIdFive ''/site/mcp'' = Inr [''five.cs'']" by code_simp
  have cs: "filter (\<lambda>f. extname envIdFive f = ''.cs'') [''five.cs''] = [''five.cs'']"
    by code_simp
  have j: "join envIdFive ''/site/mcp'' ''five.cs'' = ''/site/mcp/five.cs''" by code_simp
  have r: "readFileSync envIdFive (join envIdFive ''/site/mcp'' ''five.cs'') = Inr fileIdFive"
    by code_simp
  have k: "propertyKey envIdFive (getProp (JObj (fst (parseCSharpMcpServer envIdFive 0
             fileIdFive (join envIdFive ''/site/mcp'' ''five.cs'')))) ''id'') = Inr ''5''"
    by code_simp
  have tb: "tryBlock envIdFive = fileLoop envIdFive ''/site/mcp'' [''five.cs''] 0 []"
    by (simp only: tryBlock_def Let_def dir ls cs sum.case)
  show ?thesis
    unfolding servers_def tb fileLoop_stored[OF r k] setProp_Nil j by simp
qed

lemma id_of_fileIdFive:
  "getProp (JObj (fst (parseCSharpMcpServer envIdFive 0 fileIdFive ''/site/mcp/five.cs'')))
     ''id'' = JNum 5"
  by code_simp

section \<open>The list of the servers (claim C6)\<close>

text \<open>
  Claim C6 says that the key of an entry overwrites the id of its value. In the literal
  \<open>{ id: key, ...value }\<close> the spread comes after the property \<open>id\<close>, so the id of
  the value overwrites the key. A file whose front matter gives \<open>id: 5\<close> is stored
  under the key \<open>5\<close>, a string, and its record in the list has the number as id.
\<close>

theorem toList_id_not_the_key:
  "map fst (servers envIdFive) = [''5''] \<and>
   serversArray envIdFive =
     [fst (parseCSharpMcpServer envIdFive 0 fileIdFive ''/site/mcp/five.cs'')] \<and>
   getProp (JObj (fst (parseCSharpMcpServer envIdFive 0 fileIdFive ''/site/mcp/five.cs'')))
     ''id'' = JNum 5"
  by (simp add: serversArray_def toList_def servers_envIdFive toEntry_parsed id_of_fileIdFive
        del: getProp.simps)

text \<open>
  Claim C6, amended: for every mapping the list has one record for each entry, in the
  order of the entries, and the record of an entry has every property of the entry's
  value with the value it has there; its id is the key only when the value has no id of
  its own. (The properties of a value are distinct, as those of an object are.)
\<close>

theorem toList_keeps_fields_of_value:
  "length (toList serversData) = length serversData \<and>
   (\<forall>i k. i < length serversData \<and> distinct (map fst (snd (serversData ! i))) \<longrightarrow>
      getProp (JObj (toList serversData ! i)) k =
        (if k = ''id'' \<and> map_of (snd (serversData ! i)) ''id'' = None
         then JStr (fst (serversData ! i))
         else getProp (JObj (snd (serversData ! i))) k))"
proof (intro conjI allI impI)
  show "length (toList serversData) = length serversData" by (simp add: toList_def)
next
  fix i k
  assume a: "i < length serversData \<and> distinct (map fst (snd (serversData ! i)))"
  then have "toList serversData ! i = toEntry (fst (serversData ! i)) (snd (serversData ! i))"
    by (simp add: toList_def case_prod_beta)
  then show "getProp (JObj (toList serversData ! i)) k =
        (if k = ''id'' \<and> map_of (snd (serversData ! i)) ''id'' = None
         then JStr (fst (serversData ! i))
         else getProp (JObj (snd (serversData ! i))) k)"
    using a getProp_toEntry[of "snd (serversData ! i)"] by simp
qed

text \<open>
  The amended claim at a mapping of two entries: the value of the first has no id and
  gets its key, the value of the second keeps its own id.
\<close>

theorem toList_keeps_fields_witness:
  "length (toList [(''a'', [(''name'', JStr ''n'')]), (''b'', [(''id'', JStr ''x'')])]) = 2 \<and>
   getProp (JObj (toList [(''a'', [(''name'', JStr ''n'')]), (''b'', [(''id'', JStr ''x'')])] ! 0))
     ''id'' = JStr ''a'' \<and>
   getProp (JObj (toList [(''a'', [(''name'', JStr ''n'')]), (''b'', [(''id'', JStr ''x'')])] ! 1))
     ''id'' = JStr ''x''"
proof -
  define m :: "(string \<times> props) list" where
    "m = [(''a'', [(''name'', JStr ''n'')]), (''b'', [(''id'', JStr ''x'')])]"
  have h0: "0 < length m \<and> distinct (map fst (snd (m ! 0)))" unfolding m_def by simp
  have h1: "1 < length m \<and> distinct (map fst (snd (m ! 1)))" unfolding m_def by simp
  note T = toList_keeps_fields_of_value [of m]
  have l: "length (toList m) = 2" using T[THEN conjunct1] unfolding m_def by simp
  have f0: "getProp (JObj (toList m ! 0)) ''id'' = JStr ''a''"
    using T[THEN conjunct2, rule_format, OF h0, of "''id''"] unfolding m_def by simp
  have f1: "getProp (JObj (toList m ! 1)) ''id'' = JStr ''x''"
    using T[THEN conjunct2, rule_format, OF h1, of "''id''"] unfolding m_def by simp
  show ?thesis unfolding m_def[symmetric] by (intro conjI l f0 f1)
qed

section \<open>Records are stored under their own id (claim C10)\<close>




end
